theory Spec2Isabelle
  imports Complex_Main
begin

section \<open>Data model of the dashboard (src/src/App.js)\<close>

text \<open>
  The entities are the JSON objects of the remote API. Only the fields the component reads
  are named; a record stays extensible for the others. Identifiers are JavaScript numbers
  that hold integers, modelled as \<open>int\<close>.
\<close>

record user =
  user_id :: int
  user_name :: string

record post =
  post_id :: int
  post_userId :: int
  post_title :: string
  post_body :: string

record comment =
  comment_id :: int
  comment_postId :: int
  comment_body :: string
  comment_email :: string

text \<open>The value of \<open>useState({ title: "", body: "" })\<close>: the form of the post being written.\<close>

record draft =
  title :: string
  body :: string

text \<open>
  One field for each \<open>useState\<close> of \<open>App\<close>, in the order of the source. \<open>null\<close> and
  \<open>undefined\<close> are both \<open>None\<close>: the component only ever tests them for truthiness, or
  compares \<open>selectedPostId\<close> with a number.
\<close>

record app_state =
  users :: "user list"
  selectedUser :: "user option"
  postBody :: draft
  createdPost :: "post option"
  posts :: "post list"
  comments :: "comment list"
  selectedPostId :: "int option"
  loading :: bool
  error :: string
  currentPage :: int

definition postsPerPage :: int where
  "postsPerPage = 5"

definition initial_state :: app_state where
  "initial_state =
     \<lparr>users = [], selectedUser = None, postBody = \<lparr>title = [], body = []\<rparr>,
      createdPost = None, posts = [], comments = [], selectedPostId = None,
      loading = False, error = [], currentPage = 1\<rparr>"

subsection \<open>What the component does to the outside\<close>

text \<open>
  The four URLs of \<open>API_CHAIN_CONFIG\<close> as the component calls them:
  \<open>axios(users.url)\<close>, \<open>axios.get(posts.getAllPostsByUser(id))\<close>,
  \<open>axios.post(posts.url, {title, body, userId})\<close> and \<open>axios.get(comments.url + postId)\<close>.
\<close>

datatype request =
    GetUsers
  | GetPostsByUser int
  | PostPost string string int
  | GetComments int

datatype effect = Alert string | Request request

text \<open>The awaited promise either resolves with \<open>response.data\<close> or rejects.\<close>

datatype 'a reply = Resolved 'a | Rejected

section \<open>Operations\<close>

text \<open>
  Every asynchronous function of the component is cut at its one \<open>await\<close>: the part before
  it (\<open>_start\<close>) runs when the function is called, the part after it (\<open>_done\<close>) when the
  reply arrives, on the state of that later moment. A variable the second part reads from
  the closure of the call is an argument of \<open>_done\<close>. The function without suffix is the
  run in which nothing else happens between the two parts; it returns the final state and
  the effects in order.
\<close>

subsection \<open>fetchUsers (the effect of the mount)\<close>

definition fetchUsers_start :: "app_state \<Rightarrow> app_state \<times> effect list" where
  "fetchUsers_start s = (s\<lparr>loading := True\<rparr>, [Request GetUsers])"

definition fetchUsers_done :: "user list reply \<Rightarrow> app_state \<Rightarrow> app_state" where
  "fetchUsers_done r s =
     (case r of
        Resolved d \<Rightarrow> s\<lparr>users := d\<rparr>
      | Rejected \<Rightarrow> s\<lparr>error := ''Failed to fetch users.''\<rparr>)\<lparr>loading := False\<rparr>"

definition fetchUsers :: "user list reply \<Rightarrow> app_state \<Rightarrow> app_state \<times> effect list" where
  "fetchUsers r s =
     (case fetchUsers_start s of (s1, es) \<Rightarrow> (fetchUsers_done r s1, es))"

subsection \<open>The user selector and fetchPosts (the effect on selectedUser)\<close>

text \<open>
  The \<open>onChange\<close> of the selector, given the number \<open>+e.target.value\<close>. The placeholder
  option has the value \<open>""\<close>, and \<open>+""\<close> is \<open>0\<close>.
\<close>

definition placeholderValue :: int where
  "placeholderValue = 0"

definition onSelectChange :: "int \<Rightarrow> app_state \<Rightarrow> app_state" where
  "onSelectChange v s = s\<lparr>selectedUser := find (\<lambda>u. user_id u = v) (users s)\<rparr>"

text \<open>The body of the effect: \<open>if (selectedUser) { ... fetchPosts(); }\<close>.\<close>

definition fetchPosts_start :: "app_state \<Rightarrow> app_state \<times> effect list" where
  "fetchPosts_start s =
     (case selectedUser s of
        None \<Rightarrow> (s, [])
      | Some u \<Rightarrow> (s\<lparr>loading := True\<rparr>, [Request (GetPostsByUser (user_id u))]))"

definition fetchPosts_done :: "post list reply \<Rightarrow> app_state \<Rightarrow> app_state" where
  "fetchPosts_done r s =
     (case r of
        Resolved d \<Rightarrow> s\<lparr>posts := d\<rparr>
      | Rejected \<Rightarrow> s\<lparr>error := ''Failed to fetch posts.''\<rparr>)\<lparr>loading := False\<rparr>"

text \<open>
  A choice in the selector: the handler sets \<open>selectedUser\<close>, and React runs the effect
  again only when its dependency \<open>[selectedUser]\<close> has changed. The objects compared are
  elements of the one fetched user list, found by \<open>find\<close> (the first with that id), so the
  comparison of references is the comparison of the records.
\<close>

definition selectUser_start :: "int \<Rightarrow> app_state \<Rightarrow> app_state \<times> effect list" where
  "selectUser_start v s =
     (let s1 = onSelectChange v s
      in if selectedUser s1 = selectedUser s then (s1, []) else fetchPosts_start s1)"

definition selectUser :: "int \<Rightarrow> post list reply \<Rightarrow> app_state \<Rightarrow> app_state \<times> effect list" where
  "selectUser v r s =
     (case selectUser_start v s of
        (s1, []) \<Rightarrow> (s1, [])
      | (s1, e # es) \<Rightarrow> (fetchPosts_done r s1, e # es))"

subsection \<open>The form and createPost\<close>

definition onTitleChange :: "string \<Rightarrow> app_state \<Rightarrow> app_state" where
  "onTitleChange t s = s\<lparr>postBody := (postBody s)\<lparr>title := t\<rparr>\<rparr>"

definition onBodyChange :: "string \<Rightarrow> app_state \<Rightarrow> app_state" where
  "onBodyChange b s = s\<lparr>postBody := (postBody s)\<lparr>body := b\<rparr>\<rparr>"

text \<open>
  The guard \<open>!selectedUser || !postBody.title || !postBody.body\<close>: an object is truthy, a
  string is falsy exactly when it is empty.
\<close>

definition createPost_start ::
  "app_state \<Rightarrow> app_state \<times> effect list \<times> post list option" where
  "createPost_start s =
     (case selectedUser s of
        None \<Rightarrow> (s, [Alert ''Please fill in all fields''], None)
      | Some u \<Rightarrow>
          if title (postBody s) = [] \<or> body (postBody s) = []
          then (s, [Alert ''Please fill in all fields''], None)
          else (s\<lparr>loading := True\<rparr>,
                [Request (PostPost (title (postBody s)) (body (postBody s)) (user_id u))],
                Some (posts s)))"

text \<open>
  After the \<open>await\<close>, \<open>posts\<close> is the list of the render in which the button was clicked
  (the argument \<open>captured\<close>); \<open>{...response.data, id: posts.length + 1}\<close> overrides the id
  of the echoed object.
\<close>

definition createPost_done :: "post list \<Rightarrow> post reply \<Rightarrow> app_state \<Rightarrow> app_state" where
  "createPost_done captured r s =
     (case r of
        Resolved d \<Rightarrow>
          (let newPost = d\<lparr>post_id := int (length captured) + 1\<rparr>
           in s\<lparr>posts := newPost # captured,
                createdPost := Some newPost,
                postBody := \<lparr>title = [], body = []\<rparr>\<rparr>)
      | Rejected \<Rightarrow> s\<lparr>error := ''Failed to create post.''\<rparr>)\<lparr>loading := False\<rparr>"

definition createPost :: "post reply \<Rightarrow> app_state \<Rightarrow> app_state \<times> effect list" where
  "createPost r s =
     (case createPost_start s of
        (s1, es, None) \<Rightarrow> (s1, es)
      | (s1, es, Some captured) \<Rightarrow> (createPost_done captured r s1, es))"

subsection \<open>fetchComments\<close>

definition fetchComments_start :: "int \<Rightarrow> app_state \<Rightarrow> app_state \<times> effect list" where
  "fetchComments_start postId s = (s\<lparr>loading := True\<rparr>, [Request (GetComments postId)])"

definition fetchComments_done :: "int \<Rightarrow> comment list reply \<Rightarrow> app_state \<Rightarrow> app_state" where
  "fetchComments_done postId r s =
     (case r of
        Resolved d \<Rightarrow> s\<lparr>comments := d, selectedPostId := Some postId\<rparr>
      | Rejected \<Rightarrow> s\<lparr>error := ''Failed to fetch comments.''\<rparr>)\<lparr>loading := False\<rparr>"

definition fetchComments ::
  "int \<Rightarrow> comment list reply \<Rightarrow> app_state \<Rightarrow> app_state \<times> effect list" where
  "fetchComments postId r s =
     (case fetchComments_start postId s of (s1, es) \<Rightarrow> (fetchComments_done postId r s1, es))"

subsection \<open>Pagination\<close>

text \<open>
  \<open>Array.prototype.slice(start, end)\<close>: a negative index counts from the end, and both
  are clamped to the array.
\<close>

definition js_slice :: "'a list \<Rightarrow> int \<Rightarrow> int \<Rightarrow> 'a list" where
  "js_slice xs start end =
     (let len = int (length xs);
          k = (if start < 0 then max (len + start) 0 else min start len);
          final = (if end < 0 then max (len + end) 0 else min end len)
      in take (nat (final - k)) (drop (nat k) xs))"

definition indexOfLastPost :: "app_state \<Rightarrow> int" where
  "indexOfLastPost s = currentPage s * postsPerPage"

definition indexOfFirstPost :: "app_state \<Rightarrow> int" where
  "indexOfFirstPost s = indexOfLastPost s - postsPerPage"

definition currentPosts :: "app_state \<Rightarrow> post list" where
  "currentPosts s = js_slice (posts s) (indexOfFirstPost s) (indexOfLastPost s)"

text \<open>
  \<open>Math.ceil(posts.length / postsPerPage)\<close>. The quotient of the source is a double; for a
  length below \<open>2^53\<close> its ceiling is the ceiling of the exact quotient.
\<close>

definition totalPages :: "app_state \<Rightarrow> int" where
  "totalPages s = \<lceil>real (length (posts s)) / real_of_int postsPerPage\<rceil>"

definition nextPage :: "app_state \<Rightarrow> app_state" where
  "nextPage s =
     (if currentPage s < totalPages s then s\<lparr>currentPage := currentPage s + 1\<rparr> else s)"

definition prevPage :: "app_state \<Rightarrow> app_state" where
  "prevPage s =
     (if currentPage s > 1 then s\<lparr>currentPage := currentPage s - 1\<rparr> else s)"

section \<open>The component as a transition system\<close>

text \<open>
  Between the two parts of an asynchronous function anything else may happen: another
  click, another reply. A state of the system is the state of the component together with
  the continuations waiting for their reply; a continuation carries what it read from its
  closure (\<open>posts\<close> for createPost, \<open>postId\<close> for fetchComments).
\<close>

datatype pending =
    PendingUsers
  | PendingPosts
  | PendingCreate "post list"
  | PendingComments int

text \<open>
  The system starts when the component has mounted: the first effect has called fetchUsers,
  the second has found \<open>selectedUser\<close> null. Every later step is a handler of the rendered
  page or the arrival of a reply, in any order. A handler may be called in any state, also
  where the page does not offer its control (a disabled button, a post that is not on the
  current page): every state the page can reach is reachable here, and what holds of all
  reachable states holds of the page.
\<close>

inductive reachable :: "app_state \<Rightarrow> pending list \<Rightarrow> bool" where
  mounted: "reachable (fst (fetchUsers_start initial_state)) [PendingUsers]"
| users_reply:
    "reachable s ps \<Longrightarrow> PendingUsers \<in> set ps \<Longrightarrow>
     reachable (fetchUsers_done r s) (remove1 PendingUsers ps)"
| select_change:
    "reachable s ps \<Longrightarrow> selectUser_start v s = (s', es) \<Longrightarrow>
     reachable s' (ps @ map (\<lambda>e. PendingPosts) es)"
| posts_reply:
    "reachable s ps \<Longrightarrow> PendingPosts \<in> set ps \<Longrightarrow>
     reachable (fetchPosts_done r s) (remove1 PendingPosts ps)"
| title_input: "reachable s ps \<Longrightarrow> reachable (onTitleChange t s) ps"
| body_input: "reachable s ps \<Longrightarrow> reachable (onBodyChange b s) ps"
| create_click:
    "reachable s ps \<Longrightarrow> createPost_start s = (s', es, c) \<Longrightarrow>
     reachable s' (ps @ (case c of None \<Rightarrow> [] | Some captured \<Rightarrow> [PendingCreate captured]))"
| create_reply:
    "reachable s ps \<Longrightarrow> PendingCreate captured \<in> set ps \<Longrightarrow>
     reachable (createPost_done captured r s) (remove1 (PendingCreate captured) ps)"
| comments_click:
    "reachable s ps \<Longrightarrow>
     reachable (fst (fetchComments_start postId s)) (ps @ [PendingComments postId])"
| comments_reply:
    "reachable s ps \<Longrightarrow> PendingComments postId \<in> set ps \<Longrightarrow>
     reachable (fetchComments_done postId r s) (remove1 (PendingComments postId) ps)"
| next_click: "reachable s ps \<Longrightarrow> reachable (nextPage s) ps"
| prev_click: "reachable s ps \<Longrightarrow> reachable (prevPage s) ps"

section \<open>A session of the dashboard, for the concrete checks\<close>

definition ann :: user where
  "ann = \<lparr>user_id = 1, user_name = ''Ann''\<rparr>"

definition bob :: user where
  "bob = \<lparr>user_id = 2, user_name = ''Bob''\<rparr>"

definition sample_post :: "int \<Rightarrow> int \<Rightarrow> post" where
  "sample_post i u = \<lparr>post_id = i, post_userId = u, post_title = ''t'', post_body = ''b''\<rparr>"

definition sample_comment :: "int \<Rightarrow> int \<Rightarrow> comment" where
  "sample_comment i p =
     \<lparr>comment_id = i, comment_postId = p, comment_body = ''c'', comment_email = ''e''\<rparr>"

definition seven_posts :: "post list" where
  "seven_posts = map (\<lambda>i. sample_post i 1) [1, 2, 3, 4, 5, 6, 7]"

definition three_posts :: "post list" where
  "three_posts = map (\<lambda>i. sample_post i 2) [11, 12, 13]"

text \<open>
  The page mounts, the users Ann and Bob arrive, Ann is chosen and her seven posts arrive,
  the reader turns to page 2, then chooses Bob, whose three posts arrive.
\<close>

definition st_mounted :: app_state where
  "st_mounted = fst (fetchUsers_start initial_state)"

definition st_users :: app_state where
  "st_users = fetchUsers_done (Resolved [ann, bob]) st_mounted"

definition st_ann :: app_state where
  "st_ann = fst (selectUser 1 (Resolved seven_posts) st_users)"

definition st_ann_page2 :: app_state where
  "st_ann_page2 = nextPage st_ann"

definition st_bob :: app_state where
  "st_bob = fst (selectUser 2 (Resolved three_posts) st_ann_page2)"

text \<open>Ann is chosen and a post is being written; or the comments of her post 1 are open.\<close>

definition st_ann_drafting :: app_state where
  "st_ann_drafting = onBodyChange ''There'' (onTitleChange ''Hi'' st_ann)"

definition st_ann_comments :: app_state where
  "st_ann_comments = fst (fetchComments 1 (Resolved [sample_comment 1 1, sample_comment 2 1]) st_ann)"

text \<open>The request for the users fails.\<close>

definition st_users_failed :: app_state where
  "st_users_failed = fetchUsers_done Rejected st_mounted"

section \<open>Facts about the operations\<close>

lemma next_iff: "(currentPage s < totalPages s) = (currentPage s * 5 < int (length (posts s)))"
proof -
  have "(real_of_int (currentPage s * 5) < real_of_int (int (length (posts s)))) =
        (currentPage s * 5 < int (length (posts s)))"
    by (rule of_int_less_iff)
  then show ?thesis
    unfolding totalPages_def postsPerPage_def
    by (simp add: less_ceiling_iff pos_less_divide_eq)
qed

lemma totalPages_currentPage_update [simp]:
  "totalPages (s\<lparr>currentPage := c\<rparr>) = totalPages s"
  by (simp add: totalPages_def)

lemma totalPages_nextPage [simp]: "totalPages (nextPage s) = totalPages s"
  by (simp add: nextPage_def)

lemma totalPages_prevPage [simp]: "totalPages (prevPage s) = totalPages s"
  by (simp add: prevPage_def)

lemma currentPage_selectUser_start:
  "selectUser_start v s = (s', es) \<Longrightarrow> currentPage s' = currentPage s"
  by (auto simp: selectUser_start_def onSelectChange_def fetchPosts_start_def Let_def
      split: if_splits option.splits)

lemma currentPage_createPost_start:
  "createPost_start s = (s', es, c) \<Longrightarrow> currentPage s' = currentPage s"
  by (auto simp: createPost_start_def split: if_splits option.splits)

lemma currentPage_done [simp]:
  "currentPage (fetchUsers_done ru s) = currentPage s"
  "currentPage (fetchPosts_done rp s) = currentPage s"
  "currentPage (createPost_done captured rc s) = currentPage s"
  "currentPage (fetchComments_done postId rm s) = currentPage s"
  by (simp_all add: fetchUsers_done_def fetchPosts_done_def createPost_done_def
      fetchComments_done_def Let_def split: reply.splits)

lemma reachable_currentPage_ge_1: "reachable s ps \<Longrightarrow> 1 \<le> currentPage s"
proof (induction rule: reachable.induct)
  case mounted
  show ?case by (simp add: fetchUsers_start_def initial_state_def)
next
  case (select_change s ps v s' es)
  then show ?case by (simp add: currentPage_selectUser_start)
next
  case (create_click s ps s' es c)
  then show ?case by (simp add: currentPage_createPost_start)
next
  case (next_click s ps)
  then show ?case by (simp add: nextPage_def)
next
  case (prev_click s ps)
  then show ?case by (simp add: prevPage_def)
qed (simp_all add: onTitleChange_def onBodyChange_def fetchComments_start_def)

lemma js_slice_page:
  assumes "1 \<le> p"
  shows "js_slice xs (p * 5 - 5) (p * 5) = take 5 (drop (nat ((p - 1) * 5)) xs)"
  using assms unfolding js_slice_def Let_def
  by (auto simp: min_def max_def algebra_simps)

subsection \<open>The states of the session\<close>

lemma length_seven_posts: "length seven_posts = 7"
  by (simp add: seven_posts_def)

lemma length_three_posts: "length three_posts = 3"
  by (simp add: three_posts_def)

lemma st_users_eq: "st_users = initial_state\<lparr>users := [ann, bob]\<rparr>"
  by (simp add: st_users_def st_mounted_def fetchUsers_start_def fetchUsers_done_def
      initial_state_def)

lemma st_ann_eq:
  "st_ann = initial_state\<lparr>users := [ann, bob], selectedUser := Some ann, posts := seven_posts\<rparr>"
  by (simp add: st_ann_def st_users_eq selectUser_def selectUser_start_def onSelectChange_def
      fetchPosts_start_def fetchPosts_done_def initial_state_def ann_def bob_def)

lemma st_ann_page2_eq: "st_ann_page2 = st_ann\<lparr>currentPage := 2\<rparr>"
  by (simp add: st_ann_page2_def nextPage_def totalPages_def postsPerPage_def st_ann_eq
      length_seven_posts initial_state_def)

lemma st_bob_eq:
  "st_bob = initial_state\<lparr>users := [ann, bob], selectedUser := Some bob, posts := three_posts,
     currentPage := 2\<rparr>"
  by (simp add: st_bob_def st_ann_page2_eq st_ann_eq selectUser_def selectUser_start_def
      onSelectChange_def fetchPosts_start_def fetchPosts_done_def initial_state_def ann_def bob_def)

lemma st_ann_comments_eq:
  "st_ann_comments =
     st_ann\<lparr>comments := [sample_comment 1 1, sample_comment 2 1], selectedPostId := Some 1\<rparr>"
  by (simp add: st_ann_comments_def fetchComments_def fetchComments_start_def
      fetchComments_done_def st_ann_eq initial_state_def)

lemma st_ann_drafting_eq:
  "st_ann_drafting = st_ann\<lparr>postBody := \<lparr>title = ''Hi'', body = ''There''\<rparr>\<rparr>"
  by (simp add: st_ann_drafting_def onBodyChange_def onTitleChange_def st_ann_eq initial_state_def)

lemma reachable_st_ann: "reachable st_ann []"
proof -
  have r0: "reachable st_mounted [PendingUsers]"
    unfolding st_mounted_def by (rule reachable.mounted)
  have r1: "reachable st_users []"
    using reachable.users_reply [OF r0, of "Resolved [ann, bob]"] by (simp add: st_users_def)
  have s: "selectUser_start 1 st_users =
      (st_users\<lparr>selectedUser := Some ann, loading := True\<rparr>, [Request (GetPostsByUser 1)])"
    by (simp add: st_users_eq selectUser_start_def onSelectChange_def fetchPosts_start_def
        initial_state_def ann_def bob_def)
  have r2: "reachable (st_users\<lparr>selectedUser := Some ann, loading := True\<rparr>) [PendingPosts]"
    using reachable.select_change [OF r1 s] by simp
  show ?thesis
    using reachable.posts_reply [OF r2, of "Resolved seven_posts"]
    by (simp add: st_ann_eq st_users_eq fetchPosts_done_def initial_state_def)
qed

lemma reachable_st_ann_page2: "reachable st_ann_page2 []"
  unfolding st_ann_page2_def using reachable_st_ann by (rule reachable.next_click)

lemma reachable_st_bob: "reachable st_bob []"
proof -
  have s: "selectUser_start 2 st_ann_page2 =
      (st_ann_page2\<lparr>selectedUser := Some bob, loading := True\<rparr>, [Request (GetPostsByUser 2)])"
    by (simp add: st_ann_page2_eq st_ann_eq selectUser_start_def onSelectChange_def
        fetchPosts_start_def initial_state_def ann_def bob_def)
  have r4: "reachable (st_ann_page2\<lparr>selectedUser := Some bob, loading := True\<rparr>) [PendingPosts]"
    using reachable.select_change [OF reachable_st_ann_page2 s] by simp
  show ?thesis
    using reachable.posts_reply [OF r4, of "Resolved three_posts"]
    by (simp add: st_bob_eq st_ann_page2_eq st_ann_eq fetchPosts_done_def initial_state_def)
qed

section \<open>The claims\<close>

text \<open>
  C1 (as amended). In every state the component can reach, \<open>currentPage\<close> is at least 1, and
  so it is after \<open>nextPage\<close> and after \<open>prevPage\<close>; and the two handlers keep the page
  within \<open>[1, max(1, ceil(posts.length / 5))]\<close>: from a state where it is at most that
  bound they lead to a state where it is.
\<close>

theorem currentPage_bounds:
  assumes "reachable s ps"
  shows "1 \<le> currentPage s \<and> 1 \<le> currentPage (nextPage s) \<and> 1 \<le> currentPage (prevPage s) \<and>
         (currentPage s \<le> max 1 (totalPages s) \<longrightarrow>
            currentPage (nextPage s) \<le> max 1 (totalPages (nextPage s)) \<and>
            currentPage (prevPage s) \<le> max 1 (totalPages (prevPage s)))"
proof -
  have ge: "1 \<le> currentPage s" using assms by (rule reachable_currentPage_ge_1)
  have "1 \<le> currentPage (nextPage s)" using ge by (simp add: nextPage_def)
  moreover have "1 \<le> currentPage (prevPage s)" using ge by (simp add: prevPage_def)
  moreover have "currentPage s \<le> max 1 (totalPages s) \<Longrightarrow>
      currentPage (nextPage s) \<le> max 1 (totalPages (nextPage s))"
    by (auto simp: nextPage_def)
  moreover have "currentPage s \<le> max 1 (totalPages s) \<Longrightarrow>
      currentPage (prevPage s) \<le> max 1 (totalPages (prevPage s))"
    by (auto simp: prevPage_def)
  ultimately show ?thesis using ge by blast
qed

text \<open>Ann's seven posts on page 1: two pages, \<open>nextPage\<close> leads to page 2, \<open>prevPage\<close> stays.\<close>

theorem currentPage_bounds_witness:
  "reachable st_ann [] \<and> currentPage st_ann = 1 \<and> totalPages st_ann = 2 \<and>
   currentPage (nextPage st_ann) = 2 \<and> currentPage (prevPage st_ann) = 1"
proof -
  have t: "totalPages st_ann = 2"
    by (simp add: totalPages_def postsPerPage_def st_ann_eq length_seven_posts)
  have c: "currentPage st_ann = 1" by (simp add: st_ann_eq initial_state_def)
  show ?thesis
    using currentPage_bounds [OF reachable_st_ann] reachable_st_ann t c
    by (simp add: nextPage_def prevPage_def)
qed

text \<open>
  C1 as stated fails. Right after the mount there are no posts, so the number of pages is
  0 and page 1 is above it. And nothing resets the page when the posts are replaced: on
  page 2 of Ann's seven posts, choosing Bob (three posts, one page) leaves the page at 2,
  and the visible slice is empty. Each step of that session is a control the page offers
  at that moment (Next is enabled on page 1 of 2).
\<close>

theorem currentPage_out_of_range:
  "reachable st_mounted [PendingUsers] \<and> currentPage st_mounted = 1 \<and>
   totalPages st_mounted = 0 \<and>
   reachable st_ann_page2 [] \<and> currentPage st_ann_page2 = 2 \<and> totalPages st_ann_page2 = 2 \<and>
   reachable st_bob [] \<and> length (posts st_bob) = 3 \<and> currentPage st_bob = 2 \<and>
   totalPages st_bob = 1 \<and> \<not> currentPage st_bob \<le> max 1 (totalPages st_bob) \<and>
   currentPosts st_bob = []"
proof -
  have "reachable st_mounted [PendingUsers]"
    unfolding st_mounted_def by (rule reachable.mounted)
  moreover have "currentPage st_mounted = 1 \<and> totalPages st_mounted = 0"
    by (simp add: st_mounted_def fetchUsers_start_def initial_state_def totalPages_def)
  moreover have "currentPage st_ann_page2 = 2 \<and> totalPages st_ann_page2 = 2"
    by (simp add: st_ann_page2_eq st_ann_eq totalPages_def postsPerPage_def length_seven_posts)
  moreover have "length (posts st_bob) = 3 \<and> currentPage st_bob = 2 \<and> totalPages st_bob = 1"
    by (simp add: st_bob_eq totalPages_def postsPerPage_def length_three_posts)
  moreover have "currentPosts st_bob = []"
    by (simp add: st_bob_eq currentPosts_def js_slice_def indexOfFirstPost_def
        indexOfLastPost_def postsPerPage_def length_three_posts)
  ultimately show ?thesis using reachable_st_ann_page2 reachable_st_bob by simp
qed

text \<open>
  C2 (as amended). For every state and every user \<open>u\<close> that the selector finds by its id
  (the first fetched user with that id) and that is not the selected user already,
  selectUser replaces the selected user by \<open>u\<close> and requests the posts scoped to the id of
  \<open>u\<close>; when the request succeeds the posts list is the fetched list. The viewed post id
  and the comments list are as they were before: they are not cleared.
\<close>

theorem selectUser_replaces:
  assumes "find (\<lambda>x. user_id x = v) (users s) = Some u" and "selectedUser s \<noteq> Some u"
  shows "snd (selectUser v (Resolved d) s) = [Request (GetPostsByUser (user_id u))] \<and>
         user_id u = v \<and>
         selectedUser (fst (selectUser v (Resolved d) s)) = Some u \<and>
         posts (fst (selectUser v (Resolved d) s)) = d \<and>
         selectedPostId (fst (selectUser v (Resolved d) s)) = selectedPostId s \<and>
         comments (fst (selectUser v (Resolved d) s)) = comments s"
proof -
  from assms(1) have "user_id u = v" by (auto simp: find_Some_iff)
  with assms show ?thesis
    by (simp add: selectUser_def selectUser_start_def onSelectChange_def fetchPosts_start_def
        fetchPosts_done_def Let_def)
qed

text \<open>Ann is selected with the comments of her post 1 open; Bob is chosen.\<close>

theorem selectUser_replaces_witness:
  "find (\<lambda>x. user_id x = 2) (users st_ann_comments) = Some bob \<and>
   selectedUser st_ann_comments = Some ann \<and> ann \<noteq> bob \<and>
   snd (selectUser 2 (Resolved three_posts) st_ann_comments) = [Request (GetPostsByUser 2)] \<and>
   selectedUser (fst (selectUser 2 (Resolved three_posts) st_ann_comments)) = Some bob \<and>
   posts (fst (selectUser 2 (Resolved three_posts) st_ann_comments)) = three_posts"
proof -
  have f: "find (\<lambda>x. user_id x = 2) (users st_ann_comments) = Some bob"
    by (simp add: st_ann_comments_eq st_ann_eq ann_def bob_def)
  have n: "selectedUser st_ann_comments \<noteq> Some bob"
    by (simp add: st_ann_comments_eq st_ann_eq ann_def bob_def)
  have a: "selectedUser st_ann_comments = Some ann \<and> ann \<noteq> bob"
    by (simp add: st_ann_comments_eq st_ann_eq ann_def bob_def)
  show ?thesis
    using selectUser_replaces [OF f n, of three_posts] f a by (simp add: bob_def)
qed

text \<open>
  C2 as stated fails: with the comments of Ann's post 1 open, choosing Bob replaces the
  posts by Bob's, and the viewed post id is still 1 and the comments are still those of
  Ann's post 1.
\<close>

theorem selectUser_keeps_comments:
  "selectedPostId st_ann_comments = Some 1 \<and>
   comments st_ann_comments = [sample_comment 1 1, sample_comment 2 1] \<and>
   posts (fst (selectUser 2 (Resolved three_posts) st_ann_comments)) = three_posts \<and>
   selectedPostId (fst (selectUser 2 (Resolved three_posts) st_ann_comments)) = Some 1 \<and>
   comments (fst (selectUser 2 (Resolved three_posts) st_ann_comments)) =
     [sample_comment 1 1, sample_comment 2 1]"
  by (simp add: st_ann_comments_eq st_ann_eq selectUser_def selectUser_start_def
      onSelectChange_def fetchPosts_start_def fetchPosts_done_def initial_state_def
      ann_def bob_def)

text \<open>
  C3. For every state with a selected user \<open>u\<close> and a draft whose title and body are not
  empty, createPost whose request succeeds with the body \<open>d\<close> sends the title, the body and
  the id of \<open>u\<close>, and leaves the posts list with, at index 0 and before the former posts,
  \<open>d\<close> with its id replaced by the former number of posts plus 1; both fields of the draft
  are the empty string.
\<close>

theorem createPost_success:
  assumes "selectedUser s = Some u" and "title (postBody s) \<noteq> []"
    and "body (postBody s) \<noteq> []"
  shows "snd (createPost (Resolved d) s) =
           [Request (PostPost (title (postBody s)) (body (postBody s)) (user_id u))] \<and>
         posts (fst (createPost (Resolved d) s)) =
           d\<lparr>post_id := int (length (posts s)) + 1\<rparr> # posts s \<and>
         posts (fst (createPost (Resolved d) s)) ! 0 =
           d\<lparr>post_id := int (length (posts s)) + 1\<rparr> \<and>
         postBody (fst (createPost (Resolved d) s)) = \<lparr>title = [], body = []\<rparr>"
  using assms by (simp add: createPost_def createPost_start_def createPost_done_def Let_def)

text \<open>Ann has seven posts; the server echoes the new post with the id 101; it gets the id 8.\<close>

theorem createPost_success_witness:
  "selectedUser st_ann_drafting = Some ann \<and> title (postBody st_ann_drafting) = ''Hi'' \<and>
   body (postBody st_ann_drafting) = ''There'' \<and>
   snd (createPost (Resolved (sample_post 101 1)) st_ann_drafting) =
     [Request (PostPost ''Hi'' ''There'' 1)] \<and>
   posts (fst (createPost (Resolved (sample_post 101 1)) st_ann_drafting)) =
     sample_post 8 1 # seven_posts \<and>
   postBody (fst (createPost (Resolved (sample_post 101 1)) st_ann_drafting)) =
     \<lparr>title = [], body = []\<rparr>"
proof -
  have a: "selectedUser st_ann_drafting = Some ann"
    by (simp add: st_ann_drafting_eq st_ann_eq)
  have b: "title (postBody st_ann_drafting) = ''Hi''" "body (postBody st_ann_drafting) = ''There''"
    by (simp_all add: st_ann_drafting_eq)
  from b have b': "title (postBody st_ann_drafting) \<noteq> []" "body (postBody st_ann_drafting) \<noteq> []"
    by simp_all
  have c: "posts st_ann_drafting = seven_posts"
    by (simp add: st_ann_drafting_eq st_ann_eq)
  show ?thesis
    using createPost_success [OF a b', of "sample_post 101 1"] a b c length_seven_posts
    by (simp add: sample_post_def ann_def)
qed

text \<open>
  C4. For every state in which no user is selected, or the title of the draft is empty, or
  its body is empty, createPost shows the alert and nothing else: no request is sent,
  whatever the reply would have been, and the state (the posts and the draft among the
  rest) is the state before the call.
\<close>

theorem createPost_validation:
  assumes "selectedUser s = None \<or> title (postBody s) = [] \<or> body (postBody s) = []"
  shows "createPost_start s = (s, [Alert ''Please fill in all fields''], None) \<and>
         createPost r s = (s, [Alert ''Please fill in all fields''])"
  using assms by (auto simp: createPost_def createPost_start_def split: option.splits)

text \<open>Ann is selected and the draft is still empty.\<close>

theorem createPost_validation_witness:
  "title (postBody st_ann) = [] \<and>
   createPost (Resolved (sample_post 101 1)) st_ann =
     (st_ann, [Alert ''Please fill in all fields'']) \<and>
   createPost Rejected st_ann = (st_ann, [Alert ''Please fill in all fields''])"
proof -
  have t: "title (postBody st_ann) = []" by (simp add: st_ann_eq initial_state_def)
  then have h:
    "selectedUser st_ann = None \<or> title (postBody st_ann) = [] \<or> body (postBody st_ann) = []"
    by simp
  show ?thesis
    using createPost_validation [OF h, of "Resolved (sample_post 101 1)"]
      createPost_validation [OF h, of Rejected] t by simp
qed

text \<open>
  C5. For every state, \<open>nextPage\<close> adds 1 to \<open>currentPage\<close> when
  \<open>currentPage * 5 < posts.length\<close> and changes nothing otherwise, so it changes nothing
  on the last page \<open>ceil(posts.length / 5)\<close>; \<open>prevPage\<close> subtracts 1 when
  \<open>currentPage > 1\<close> and changes nothing otherwise, so it changes nothing on page 1; the
  page size is 5.
\<close>

theorem paginate:
  "nextPage s = (if currentPage s * 5 < int (length (posts s))
                 then s\<lparr>currentPage := currentPage s + 1\<rparr> else s) \<and>
   prevPage s = (if currentPage s > 1 then s\<lparr>currentPage := currentPage s - 1\<rparr> else s) \<and>
   (currentPage s = totalPages s \<longrightarrow> nextPage s = s) \<and>
   (currentPage s = 1 \<longrightarrow> prevPage s = s) \<and>
   postsPerPage = 5"
  by (simp add: nextPage_def prevPage_def next_iff [symmetric] postsPerPage_def)

text \<open>Ann's seven posts: on page 1 and on page 2, the last.\<close>

theorem paginate_witness:
  "currentPage st_ann = 1 \<and> length (posts st_ann) = 7 \<and>
   nextPage st_ann = st_ann\<lparr>currentPage := 2\<rparr> \<and> prevPage st_ann = st_ann \<and>
   currentPage st_ann_page2 = 2 \<and> totalPages st_ann_page2 = 2 \<and>
   nextPage st_ann_page2 = st_ann_page2 \<and>
   prevPage st_ann_page2 = st_ann_page2\<lparr>currentPage := 1\<rparr>"
proof -
  have a: "currentPage st_ann = 1 \<and> length (posts st_ann) = 7"
    by (simp add: st_ann_eq initial_state_def length_seven_posts)
  have b: "currentPage st_ann_page2 = 2 \<and> length (posts st_ann_page2) = 7"
    by (simp add: st_ann_page2_eq st_ann_eq initial_state_def length_seven_posts)
  have c: "totalPages st_ann_page2 = 2"
    by (simp add: st_ann_page2_eq st_ann_eq totalPages_def postsPerPage_def length_seven_posts)
  show ?thesis
    using paginate [of st_ann] paginate [of st_ann_page2] a b c by simp
qed

text \<open>
  C6. For every posts list and every page from 1 on, the visible slice is
  \<open>posts[(page - 1) * 5 : page * 5]\<close>, the five posts (or fewer, at the end of the list)
  from index \<open>(page - 1) * 5\<close>. With seven posts on page 1 the slice is the first five
  posts, \<open>nextPage\<close> leads to page 2, whose slice is the other two, and a second
  \<open>nextPage\<close> changes nothing.
\<close>

theorem currentPosts_slice:
  assumes "1 \<le> currentPage s"
  shows "currentPosts s = take 5 (drop (nat ((currentPage s - 1) * 5)) (posts s)) \<and>
         (length (posts s) = 7 \<and> currentPage s = 1 \<longrightarrow>
            currentPosts s = take 5 (posts s) \<and>
            currentPage (nextPage s) = 2 \<and>
            currentPosts (nextPage s) = drop 5 (posts s) \<and>
            nextPage (nextPage s) = nextPage s)"
proof -
  have a: "currentPosts t = take 5 (drop (nat ((currentPage t - 1) * 5)) (posts t))"
    if "1 \<le> currentPage t" for t
    using js_slice_page [OF that]
    by (simp add: currentPosts_def indexOfFirstPost_def indexOfLastPost_def postsPerPage_def)
  have b: "currentPosts s = take 5 (posts s) \<and> currentPage (nextPage s) = 2 \<and>
      currentPosts (nextPage s) = drop 5 (posts s) \<and> nextPage (nextPage s) = nextPage s"
    if l: "length (posts s) = 7" and c: "currentPage s = 1"
  proof -
    have "currentPage s < totalPages s"
      using l c next_iff [of s] by simp
    then have n: "nextPage s = s\<lparr>currentPage := 2\<rparr>"
      using c by (simp add: nextPage_def)
    have "\<not> currentPage (s\<lparr>currentPage := 2\<rparr>) < totalPages (s\<lparr>currentPage := 2\<rparr>)"
      using l next_iff [of "s\<lparr>currentPage := 2\<rparr>"] by simp
    then have "nextPage (s\<lparr>currentPage := 2\<rparr>) = s\<lparr>currentPage := 2\<rparr>"
      by (simp only: nextPage_def if_False)
    moreover have "currentPosts (s\<lparr>currentPage := 2\<rparr>) = drop 5 (posts s)"
      using a [of "s\<lparr>currentPage := 2\<rparr>"] l by simp
    moreover have "currentPosts s = take 5 (posts s)"
      using a [of s] c by simp
    ultimately show ?thesis using n by simp
  qed
  show ?thesis using a [OF assms] b by blast
qed

text \<open>The scenario on Ann's seven posts, with ids 1 to 7.\<close>

theorem currentPosts_slice_witness:
  "1 \<le> currentPage st_ann \<and> length (posts st_ann) = 7 \<and> currentPage st_ann = 1 \<and>
   currentPosts st_ann = map (\<lambda>i. sample_post i 1) [1, 2, 3, 4, 5] \<and>
   currentPage (nextPage st_ann) = 2 \<and>
   currentPosts (nextPage st_ann) = map (\<lambda>i. sample_post i 1) [6, 7] \<and>
   nextPage (nextPage st_ann) = nextPage st_ann"
proof -
  have a: "currentPage st_ann = 1" "posts st_ann = seven_posts"
    by (simp_all add: st_ann_eq initial_state_def)
  then have h: "1 \<le> currentPage st_ann" by simp
  show ?thesis
    using currentPosts_slice [OF h] a length_seven_posts
    by (simp add: seven_posts_def)
qed

text \<open>
  C7. For every state and every two post ids, fetchComments of the first followed by
  fetchComments of the second, both successful, leaves as comments exactly the list
  fetched for the second and as viewed post id the second. Each successful fetchComments,
  in whatever state its reply arrives, makes the comments the fetched list (nothing of the
  former list stays) and the viewed post id its argument.
\<close>

theorem fetchComments_replaces:
  "comments (fst (fetchComments otherId (Resolved d2)
      (fst (fetchComments postId (Resolved d1) s)))) = d2 \<and>
   selectedPostId (fst (fetchComments otherId (Resolved d2)
      (fst (fetchComments postId (Resolved d1) s)))) = Some otherId \<and>
   comments (fst (fetchComments postId (Resolved d1) s)) = d1 \<and>
   selectedPostId (fst (fetchComments postId (Resolved d1) s)) = Some postId \<and>
   snd (fetchComments postId (Resolved d1) s) = [Request (GetComments postId)] \<and>
   comments (fetchComments_done postId (Resolved d1) s) = d1 \<and>
   selectedPostId (fetchComments_done postId (Resolved d1) s) = Some postId"
  by (simp add: fetchComments_def fetchComments_start_def fetchComments_done_def)

text \<open>The two comments of post 1 are open; post 2 has one comment.\<close>

theorem fetchComments_replaces_witness:
  "comments st_ann_comments = [sample_comment 1 1, sample_comment 2 1] \<and>
   selectedPostId st_ann_comments = Some 1 \<and>
   comments (fst (fetchComments 2 (Resolved [sample_comment 6 2]) st_ann_comments)) =
     [sample_comment 6 2] \<and>
   selectedPostId (fst (fetchComments 2 (Resolved [sample_comment 6 2]) st_ann_comments)) =
     Some 2"
  using fetchComments_replaces [where otherId = 2 and ?d2.0 = "[sample_comment 6 2]"
      and postId = 1 and ?d1.0 = "[sample_comment 1 1, sample_comment 2 1]" and s = st_ann]
  by (simp add: st_ann_comments_def)

text \<open>
  C8. For every state with a selected user and a draft whose title and body are not empty,
  createPost whose request fails sets the error to the message of createPost and leaves
  every other field as it was before the call, the posts list, the draft, the selected
  user and the viewed post among them; the one other field it writes is the shared loading
  flag, which it clears as every operation does. From a state that was not loading, the
  state after the call differs from the state before it in the error alone.
\<close>

theorem createPost_failure:
  assumes "selectedUser s = Some u" and "title (postBody s) \<noteq> []"
    and "body (postBody s) \<noteq> []"
  shows "fst (createPost Rejected s) =
           s\<lparr>loading := False, error := ''Failed to create post.''\<rparr> \<and>
         (\<not> loading s \<longrightarrow>
            fst (createPost Rejected s) = s\<lparr>error := ''Failed to create post.''\<rparr>) \<and>
         posts (fst (createPost Rejected s)) = posts s \<and>
         postBody (fst (createPost Rejected s)) = postBody s \<and>
         selectedUser (fst (createPost Rejected s)) = selectedUser s \<and>
         selectedPostId (fst (createPost Rejected s)) = selectedPostId s \<and>
         error (fst (createPost Rejected s)) = ''Failed to create post.''"
  using assms by (simp add: createPost_def createPost_start_def createPost_done_def)

text \<open>Ann's draft is ready and the request fails.\<close>

theorem createPost_failure_witness:
  "selectedUser st_ann_drafting = Some ann \<and> title (postBody st_ann_drafting) = ''Hi'' \<and>
   body (postBody st_ann_drafting) = ''There'' \<and>
   fst (createPost Rejected st_ann_drafting) =
     st_ann_drafting\<lparr>error := ''Failed to create post.''\<rparr> \<and>
   posts (fst (createPost Rejected st_ann_drafting)) = seven_posts"
proof -
  have a: "selectedUser st_ann_drafting = Some ann"
    by (simp add: st_ann_drafting_eq st_ann_eq)
  have b: "title (postBody st_ann_drafting) = ''Hi''" "body (postBody st_ann_drafting) = ''There''"
    by (simp_all add: st_ann_drafting_eq)
  from b have b': "title (postBody st_ann_drafting) \<noteq> []" "body (postBody st_ann_drafting) \<noteq> []"
    by simp_all
  have c: "posts st_ann_drafting = seven_posts" "loading st_ann_drafting = False"
    by (simp_all add: st_ann_drafting_eq st_ann_eq initial_state_def)
  show ?thesis
    using createPost_failure [OF a b'] a b c by simp
qed

text \<open>
  C9. For each of the four operations, a run whose request succeeds leaves the error
  string as it was, and so does the arrival of a successful reply in any state: an error
  set by an earlier failure stays. The arrival of a reply, successful or not, clears the
  loading flag.
\<close>

theorem error_kept_loading_cleared:
  "error (fst (fetchUsers (Resolved du) s)) = error s \<and>
   error (fst (selectUser v (Resolved dp) s)) = error s \<and>
   error (fst (createPost (Resolved dc) s)) = error s \<and>
   error (fst (fetchComments postId (Resolved dm) s)) = error s \<and>
   error (fetchUsers_done (Resolved du) s) = error s \<and>
   error (fetchPosts_done (Resolved dp) s) = error s \<and>
   error (createPost_done captured (Resolved dc) s) = error s \<and>
   error (fetchComments_done postId (Resolved dm) s) = error s \<and>
   \<not> loading (fetchUsers_done ru s) \<and>
   \<not> loading (fetchPosts_done rp s) \<and>
   \<not> loading (createPost_done captured rc s) \<and>
   \<not> loading (fetchComments_done postId rm s)"
proof -
  have "error (fst (fetchUsers (Resolved du) s)) = error s"
    by (simp add: fetchUsers_def fetchUsers_start_def fetchUsers_done_def)
  moreover have "error (fst (selectUser v (Resolved dp) s)) = error s"
    by (simp add: selectUser_def selectUser_start_def onSelectChange_def fetchPosts_start_def
        fetchPosts_done_def Let_def split: option.splits)
  moreover have "error (fst (createPost (Resolved dc) s)) = error s"
    by (simp add: createPost_def createPost_start_def createPost_done_def Let_def
        split: option.splits)
  moreover have "error (fst (fetchComments postId (Resolved dm) s)) = error s"
    by (simp add: fetchComments_def fetchComments_start_def fetchComments_done_def)
  moreover have "error (fetchUsers_done (Resolved du) s) = error s \<and>
      error (fetchPosts_done (Resolved dp) s) = error s \<and>
      error (createPost_done captured (Resolved dc) s) = error s \<and>
      error (fetchComments_done postId (Resolved dm) s) = error s"
    by (simp add: fetchUsers_done_def fetchPosts_done_def createPost_done_def
        fetchComments_done_def Let_def)
  moreover have "\<not> loading (fetchUsers_done ru s) \<and> \<not> loading (fetchPosts_done rp s) \<and>
      \<not> loading (createPost_done captured rc s) \<and> \<not> loading (fetchComments_done postId rm s)"
    by (simp add: fetchUsers_done_def fetchPosts_done_def createPost_done_def
        fetchComments_done_def Let_def split: reply.splits)
  ultimately show ?thesis by simp
qed

text \<open>The users could not be fetched; comments fetched afterwards leave that error shown.\<close>

theorem error_kept_loading_cleared_witness:
  "error st_users_failed = ''Failed to fetch users.'' \<and>
   \<not> loading st_users_failed \<and>
   error (fst (fetchComments 1 (Resolved [sample_comment 1 1]) st_users_failed)) =
     ''Failed to fetch users.'' \<and>
   \<not> loading (fst (fetchComments 1 (Resolved [sample_comment 1 1]) st_users_failed))"
proof -
  have e: "error st_users_failed = ''Failed to fetch users.''"
    by (simp add: st_users_failed_def st_mounted_def fetchUsers_done_def)
  have f: "fst (fetchComments 1 (Resolved [sample_comment 1 1]) st_users_failed) =
      fetchComments_done 1 (Resolved [sample_comment 1 1]) (st_users_failed\<lparr>loading := True\<rparr>)"
    by (simp add: fetchComments_def fetchComments_start_def)
  show ?thesis
    using error_kept_loading_cleared [where s = st_users_failed and postId = 1
        and dm = "[sample_comment 1 1]"]
      error_kept_loading_cleared [where s = "st_users_failed\<lparr>loading := True\<rparr>" and postId = 1
        and rm = "Resolved [sample_comment 1 1]"]
      error_kept_loading_cleared [where s = st_mounted and ru = Rejected]
      e f
    by (simp add: st_users_failed_def)
qed

text \<open>
  C10. For every state and every value of the selector that is the id of no fetched user
  (the placeholder gives 0), choosing it sets the selected user to none and sends no
  request; the posts list, the viewed post id and the comments list are those of before.
\<close>

theorem deselect_keeps_state:
  assumes "\<forall>u \<in> set (users s). user_id u \<noteq> v"
  shows "selectUser_start v s = (s\<lparr>selectedUser := None\<rparr>, []) \<and>
         selectUser v r s = (s\<lparr>selectedUser := None\<rparr>, []) \<and>
         selectedUser (fst (selectUser v r s)) = None \<and>
         posts (fst (selectUser v r s)) = posts s \<and>
         selectedPostId (fst (selectUser v r s)) = selectedPostId s \<and>
         comments (fst (selectUser v r s)) = comments s"
proof -
  from assms have "find (\<lambda>u. user_id u = v) (users s) = None"
    by (simp add: find_None_iff)
  then have "selectUser_start v s = (s\<lparr>selectedUser := None\<rparr>, [])"
    by (simp add: selectUser_start_def onSelectChange_def fetchPosts_start_def Let_def)
  then show ?thesis by (simp add: selectUser_def)
qed

text \<open>Ann is selected with the comments of her post 1 open; the placeholder is chosen.\<close>

theorem deselect_keeps_state_witness:
  "users st_ann_comments = [ann, bob] \<and> user_id ann \<noteq> placeholderValue \<and>
   user_id bob \<noteq> placeholderValue \<and> selectedUser st_ann_comments = Some ann \<and>
   selectUser placeholderValue (Resolved three_posts) st_ann_comments =
     (st_ann_comments\<lparr>selectedUser := None\<rparr>, []) \<and>
   posts (fst (selectUser placeholderValue (Resolved three_posts) st_ann_comments)) =
     seven_posts \<and>
   selectedPostId (fst (selectUser placeholderValue (Resolved three_posts) st_ann_comments)) =
     Some 1 \<and>
   comments (fst (selectUser placeholderValue (Resolved three_posts) st_ann_comments)) =
     [sample_comment 1 1, sample_comment 2 1]"
proof -
  have u: "users st_ann_comments = [ann, bob] \<and> user_id ann \<noteq> placeholderValue \<and>
      user_id bob \<noteq> placeholderValue"
    by (simp add: st_ann_comments_eq st_ann_eq ann_def bob_def placeholderValue_def)
  then have h: "\<forall>u \<in> set (users st_ann_comments). user_id u \<noteq> placeholderValue"
    by simp
  have a: "selectedUser st_ann_comments = Some ann" "posts st_ann_comments = seven_posts"
    "selectedPostId st_ann_comments = Some 1"
    "comments st_ann_comments = [sample_comment 1 1, sample_comment 2 1]"
    by (simp_all add: st_ann_comments_eq st_ann_eq)
  show ?thesis
    using deselect_keeps_state [OF h, of "Resolved three_posts"] u a by simp
qed

end
